theory Spec2Isabelle
  imports Main "HOL-Library.Word"
begin

section \<open>JavaScript strings\<close>

text \<open>
  A JavaScript string is a sequence of 16-bit code units. The regular expressions of the
  trigger evaluator carry no flags, so matching, \<open>split\<close>, \<open>trim\<close> and \<open>includes\<close> all
  work on code units. \<open>js\<close> embeds an ASCII literal.
\<close>

type_synonym code_unit = "16 word"
type_synonym jsstring = "code_unit list"

definition js :: "string \<Rightarrow> jsstring" where
  "js s = map of_char s"

definition backslash :: code_unit where
  "backslash = 0x5C"

text \<open>
  The characters of the class \<open>\s\<close>, which are also the characters that \<open>trim\<close> and
  \<open>parseInt\<close> strip: the white-space characters and the line terminators.
\<close>

definition is_white_space :: "code_unit \<Rightarrow> bool" where
  "is_white_space c \<longleftrightarrow>
     c \<in> set [0x09, 0x0A, 0x0B, 0x0C, 0x0D, 0x20, 0xA0, 0x1680,
               0x2028, 0x2029, 0x202F, 0x205F, 0x3000, 0xFEFF]
     \<or> (0x2000 \<le> c \<and> c \<le> 0x200A)"

section \<open>Regular expressions\<close>

text \<open>
  \<open>escapeRegExp\<close> (trigger check, lines 206 to 208) puts a backslash before every character
  of the class \<open>[.*+?^${}()|[\]\\]\<close>.
\<close>

definition syntax_characters :: "code_unit list" where
  "syntax_characters = js ''.*+?^${}()|[]'' @ [backslash]"

fun escapeRegExp :: "jsstring \<Rightarrow> jsstring" where
  "escapeRegExp [] = []"
| "escapeRegExp (c # cs) =
     (if c \<in> set syntax_characters then backslash # c # escapeRegExp cs
      else c # escapeRegExp cs)"

text \<open>
  The fragment of the pattern language that the trigger patterns are written in: groups,
  alternatives, the assertions \<open>^\<close> and \<open>$\<close>, the class escape \<open>\s\<close>, a backslash before
  a syntax character, character classes of single characters and \<open>\s\<close>, and ordinary
  characters. \<open>lex\<close> turns a pattern into tokens, reading a class as one token, and \<open>parse\<close>
  builds the tree with a stack of open groups. A pattern outside the fragment (a
  quantifier, a dot, a range, another escape) is not given a meaning: \<open>RegExp\<close> answers
  \<open>SyntaxError\<close> for it, and the pattern built from a trigger phrase is shown below never to
  be one.
\<close>

datatype class_item = Item_char code_unit | Item_space

datatype node =
    Empty
  | Assert_start
  | Assert_end
  | Match_char code_unit
  | Space_class
  | Char_class "class_item list"
  | Seq node node
  | Alt node node

datatype token = T_open | T_close | T_bar | T_atom node

fun lex :: "class_item list option \<Rightarrow> jsstring \<Rightarrow> token list option" where
  "lex None [] = Some []"
| "lex (Some acc) [] = None"
| "lex None (c # cs) =
     (if c = of_char CHR ''('' then map_option ((#) T_open) (lex None cs)
      else if c = of_char CHR '')'' then map_option ((#) T_close) (lex None cs)
      else if c = of_char CHR ''|'' then map_option ((#) T_bar) (lex None cs)
      else if c = of_char CHR ''^'' then map_option ((#) (T_atom Assert_start)) (lex None cs)
      else if c = of_char CHR ''$'' then map_option ((#) (T_atom Assert_end)) (lex None cs)
      else if c = of_char CHR ''['' then lex (Some []) cs
      else if c = backslash then
        (case cs of
           [] \<Rightarrow> None
         | d # ds \<Rightarrow>
             if d = of_char CHR ''s'' then map_option ((#) (T_atom Space_class)) (lex None ds)
             else if d \<in> set syntax_characters then map_option ((#) (T_atom (Match_char d))) (lex None ds)
             else None)
      else if c \<in> set syntax_characters then None
      else map_option ((#) (T_atom (Match_char c))) (lex None cs))"
| "lex (Some acc) (c # cs) =
     (if c = of_char CHR '']'' then map_option ((#) (T_atom (Char_class (rev acc)))) (lex None cs)
      else if c = backslash then
        (case cs of
           [] \<Rightarrow> None
         | d # ds \<Rightarrow>
             if d = of_char CHR ''s'' then lex (Some (Item_space # acc)) ds
             else if d \<in> set syntax_characters then lex (Some (Item_char d # acc)) ds
             else None)
      else if c = of_char CHR ''-'' \<or> (c = of_char CHR ''^'' \<and> acc = []) then None
      else lex (Some (Item_char c # acc)) cs)"

type_synonym frame = "node list list \<times> node list"

definition sequence :: "node list \<Rightarrow> node" where
  "sequence ns = foldr Seq ns Empty"

fun alternatives :: "node list \<Rightarrow> node" where
  "alternatives [] = Empty"
| "alternatives [n] = n"
| "alternatives (n # ns) = Alt n (alternatives ns)"

definition close_frame :: "frame \<Rightarrow> node" where
  "close_frame f = alternatives (map (sequence \<circ> rev) (rev (snd f # fst f)))"

fun parse :: "frame list \<Rightarrow> token list \<Rightarrow> node option" where
  "parse [f] [] = Some (close_frame f)"
| "parse st [] = None"
| "parse [] ts = None"
| "parse ((alts, cur) # st) (T_atom a # ts) = parse ((alts, a # cur) # st) ts"
| "parse ((alts, cur) # st) (T_bar # ts) = parse ((cur # alts, []) # st) ts"
| "parse (f # st) (T_open # ts) = parse (([], []) # f # st) ts"
| "parse (f # (alts, cur) # st) (T_close # ts) = parse ((alts, close_frame f # cur) # st) ts"
| "parse [f] (T_close # ts) = None"

datatype error = TypeError | SyntaxError | Unsupported_event_type jsstring

definition RegExp :: "jsstring \<Rightarrow> error + node" where
  "RegExp pattern =
     (case lex None pattern of
        None \<Rightarrow> Inl SyntaxError
      | Some ts \<Rightarrow> (case parse [([], [])] ts of None \<Rightarrow> Inl SyntaxError | Some r \<Rightarrow> Inr r))"

text \<open>
  Matching. \<open>step r (i, s)\<close> lists the states reachable by matching \<open>r\<close> at index \<open>i\<close>,
  where \<open>s\<close> is the rest of the input from \<open>i\<close> on; without the multiline flag \<open>^\<close> holds
  at index 0 only and \<open>$\<close> at the end of the input only. \<open>test\<close> looks for a match starting
  at any index, as \<open>RegExp.prototype.test\<close> does for a pattern without the global flag.
\<close>

fun class_has :: "class_item list \<Rightarrow> code_unit \<Rightarrow> bool" where
  "class_has [] x = False"
| "class_has (Item_char c # items) x = (x = c \<or> class_has items x)"
| "class_has (Item_space # items) x = (is_white_space x \<or> class_has items x)"

fun step :: "node \<Rightarrow> nat \<times> jsstring \<Rightarrow> (nat \<times> jsstring) list" where
  "step Empty st = [st]"
| "step Assert_start (i, s) = (if i = 0 then [(i, s)] else [])"
| "step Assert_end (i, s) = (if s = [] then [(i, s)] else [])"
| "step (Match_char c) (i, s) = (case s of [] \<Rightarrow> [] | x # xs \<Rightarrow> if x = c then [(Suc i, xs)] else [])"
| "step Space_class (i, s) =
     (case s of [] \<Rightarrow> [] | x # xs \<Rightarrow> if is_white_space x then [(Suc i, xs)] else [])"
| "step (Char_class items) (i, s) =
     (case s of [] \<Rightarrow> [] | x # xs \<Rightarrow> if class_has items x then [(Suc i, xs)] else [])"
| "step (Seq a b) st = concat (map (step b) (step a st))"
| "step (Alt a b) st = step a st @ step b st"

definition test :: "node \<Rightarrow> jsstring \<Rightarrow> bool" where
  "test r text = list_ex (\<lambda>i. step r (i, drop i text) \<noteq> []) [0..<Suc (length text)]"

text \<open>
  The pattern of the body, title and comment rules (lines 118 to 120, 144 to 146, 172 to 174
  and 192 to 194): the template literal
  \<^verbatim>\<open>(^|\\s)${escapeRegExp(triggerPhrase)}([\\s.,!?;:]|$)\<close>.
\<close>

definition trigger_pattern :: "jsstring \<Rightarrow> jsstring" where
  "trigger_pattern triggerPhrase =
     js ''(^|'' @ [backslash] @ js ''s)'' @ escapeRegExp triggerPhrase
       @ js ''(['' @ [backslash] @ js ''s.,!?;:]|$)''"

section \<open>String and number functions\<close>

text \<open>
  \<open>split\<close> on a one-character separator (the empty string splits into one empty string),
  \<open>trim\<close>, and \<open>parseInt\<close> with radix 10: leading white space is skipped, one sign is read,
  and the longest run of decimal digits is the value; no digit gives \<open>NaN\<close>. A number is
  modelled as \<open>NaN\<close> or a mathematical integer: the rounding of very large values to a
  double is not modelled. \<open>nat_digits\<close> prints a natural number in decimal, which is how
  \<open>toString\<close> prints an integer of magnitude below \<open>10^21\<close>.
\<close>

fun js_split :: "code_unit \<Rightarrow> jsstring \<Rightarrow> jsstring list" where
  "js_split sep [] = [[]]"
| "js_split sep (c # cs) =
     (if c = sep then [] # js_split sep cs
      else (case js_split sep cs of [] \<Rightarrow> [[c]] | x # xs \<Rightarrow> (c # x) # xs))"

definition js_trim :: "jsstring \<Rightarrow> jsstring" where
  "js_trim s = rev (dropWhile is_white_space (rev (dropWhile is_white_space s)))"

definition is_digit :: "code_unit \<Rightarrow> bool" where
  "is_digit c \<longleftrightarrow> 0x30 \<le> c \<and> c \<le> 0x39"

definition digits_value :: "jsstring \<Rightarrow> nat" where
  "digits_value z = foldl (\<lambda>acc c. 10 * acc + (unat c - 48)) 0 z"

datatype js_number = NaN | Integer int

definition parseInt10 :: "jsstring \<Rightarrow> js_number" where
  "parseInt10 s =
     (let t = dropWhile is_white_space s;
          negative = (case t of [] \<Rightarrow> False | c # _ \<Rightarrow> c = of_char CHR ''-'');
          u = (case t of [] \<Rightarrow> []
               | c # cs \<Rightarrow> if c = of_char CHR ''-'' \<or> c = of_char CHR ''+'' then cs else t);
          z = takeWhile is_digit u
      in if z = [] then NaN
         else Integer (if negative then - int (digits_value z) else int (digits_value z)))"

fun nat_digits :: "nat \<Rightarrow> jsstring" where
  "nat_digits n =
     (if n < 10 then [of_nat (48 + n)]
      else nat_digits (n div 10) @ [of_nat (48 + n mod 10)])"

declare nat_digits.simps [simp del]

section \<open>Values, payloads and the context record\<close>

text \<open>
  The values found under the keys of \<open>client_payload\<close> and of the dispatch \<open>inputs\<close>, which
  the payload types leave open: undefined (a missing key), null, booleans, integers and
  strings. \<open>truthy\<close> is the conversion to a boolean, \<open>js_or\<close> the operator \<open>||\<close>, and
  \<open>toString\<close> the method call \<open>v.toString()\<close>, which throws on undefined and null.
\<close>

datatype jsval = JUndefined | JNull | JBool bool | JNumber int | JString jsstring

fun truthy :: "jsval \<Rightarrow> bool" where
  "truthy JUndefined = False"
| "truthy JNull = False"
| "truthy (JBool b) = b"
| "truthy (JNumber n) = (n \<noteq> 0)"
| "truthy (JString s) = (s \<noteq> [])"

definition js_or :: "jsval \<Rightarrow> jsval \<Rightarrow> jsval" where
  "js_or a b = (if truthy a then a else b)"

fun toString :: "jsval \<Rightarrow> error + jsstring" where
  "toString JUndefined = Inl TypeError"
| "toString JNull = Inl TypeError"
| "toString (JBool b) = Inr (if b then js ''true'' else js ''false'')"
| "toString (JNumber n) =
     Inr (if n < 0 then of_char CHR ''-'' # nat_digits (nat (- n)) else nat_digits (nat n))"
| "toString (JString s) = Inr s"

text \<open>
  A text field of a payload: missing (reads as undefined), null, or a string. \<open>or_empty\<close>
  is the expression \<open>field || ""\<close>; \<open>ToString\<close> is the conversion that
  \<open>RegExp.prototype.test\<close> applies to its argument.
\<close>

datatype text_field = Missing | Null | Text jsstring

fun or_empty :: "text_field \<Rightarrow> jsstring" where
  "or_empty Missing = []"
| "or_empty Null = []"
| "or_empty (Text s) = s"

fun ToString :: "text_field \<Rightarrow> jsstring" where
  "ToString Missing = js ''undefined''"
| "ToString Null = js ''null''"
| "ToString (Text s) = s"

text \<open>
  The parts of the webhook payloads that the two functions read. The number of an issue or
  pull request is an integer. An assignee, a label, a pull-request back-reference, the
  dispatch inputs and the client payload are optional objects (\<open>None\<close> for null or
  undefined).
\<close>

record user =
  login :: text_field

record issue =
  issue_number :: int
  issue_body :: text_field
  issue_title :: text_field
  issue_assignee :: "user option"
  issue_pull_request :: "unit option"

record pull_request =
  pull_request_number :: int
  pull_request_body :: text_field
  pull_request_title :: text_field

record review =
  review_body :: text_field

record comment =
  comment_body :: text_field

record label =
  label_name :: text_field

record dispatch_inputs =
  inputs_pr_number :: jsval
  inputs_is_pr :: jsval
  inputs_prompt :: jsval

record client_payload =
  client_pr_number :: jsval
  client_is_pr :: jsval
  client_issue_number :: jsval
  client_prompt :: jsval

datatype payload =
    IssuesEvent issue "label option"
  | IssueCommentEvent issue comment
  | PullRequestEvent pull_request
  | PullRequestReviewEvent pull_request review
  | PullRequestReviewCommentEvent pull_request comment
  | WorkflowDispatchEvent "dispatch_inputs option"
  | RepositoryDispatchEvent "client_payload option"

text \<open>
  Property reads on the payload object. A property that the payload's shape does not have
  reads as undefined (\<open>None\<close>); reading a property of that result throws a TypeError, unless
  the read is an optional chain \<open>?.\<close>, which gives undefined.
\<close>

fun payload_issue :: "payload \<Rightarrow> issue option" where
  "payload_issue (IssuesEvent i l) = Some i"
| "payload_issue (IssueCommentEvent i c) = Some i"
| "payload_issue _ = None"

fun payload_pull_request :: "payload \<Rightarrow> pull_request option" where
  "payload_pull_request (PullRequestEvent p) = Some p"
| "payload_pull_request (PullRequestReviewEvent p r) = Some p"
| "payload_pull_request (PullRequestReviewCommentEvent p c) = Some p"
| "payload_pull_request _ = None"

fun payload_review :: "payload \<Rightarrow> review option" where
  "payload_review (PullRequestReviewEvent p r) = Some r"
| "payload_review _ = None"

fun payload_comment :: "payload \<Rightarrow> comment option" where
  "payload_comment (IssueCommentEvent i c) = Some c"
| "payload_comment (PullRequestReviewCommentEvent p c) = Some c"
| "payload_comment _ = None"

fun payload_label :: "payload \<Rightarrow> label option" where
  "payload_label (IssuesEvent i l) = l"
| "payload_label _ = None"

fun payload_inputs :: "payload \<Rightarrow> dispatch_inputs option" where
  "payload_inputs (WorkflowDispatchEvent i) = i"
| "payload_inputs _ = None"

fun payload_client_payload :: "payload \<Rightarrow> client_payload option" where
  "payload_client_payload (RepositoryDispatchEvent c) = c"
| "payload_client_payload _ = None"

definition optional_chain :: "'a option \<Rightarrow> ('a \<Rightarrow> jsval) \<Rightarrow> jsval" where
  "optional_chain obj field = (case obj of None \<Rightarrow> JUndefined | Some x \<Rightarrow> field x)"

text \<open>
  The environment variables that the two functions read. \<open>nullish\<close> is the operator \<open>??\<close>.
  \<open>getInput\<close> is \<open>core.getInput\<close> of the actions toolkit, applied to the value of the
  variable \<open>INPUT_<NAME>\<close>: the trimmed value, or the empty string when the variable is
  unset.
\<close>

record process_env =
  GITHUB_RUN_ID :: "jsstring option"
  TRIGGER_PHRASE :: "jsstring option"
  ASSIGNEE_TRIGGER :: "jsstring option"
  LABEL_TRIGGER :: "jsstring option"
  ALLOWED_TOOLS :: "jsstring option"
  DISALLOWED_TOOLS :: "jsstring option"
  CUSTOM_INSTRUCTIONS :: "jsstring option"
  DIRECT_PROMPT :: "jsstring option"
  BASE_BRANCH :: "jsstring option"
  PR_NUMBER :: "jsstring option"
  PROMPT :: "jsstring option"
  INPUT_PR_NUMBER :: "jsstring option"
  INPUT_PROMPT :: "jsstring option"

definition nullish :: "'a option \<Rightarrow> 'a \<Rightarrow> 'a" where
  "nullish v d = (case v of None \<Rightarrow> d | Some x \<Rightarrow> x)"

definition getInput :: "jsstring option \<Rightarrow> jsstring" where
  "getInput v = js_trim (case v of None \<Rightarrow> [] | Some s \<Rightarrow> s)"

definition env_value :: "jsstring option \<Rightarrow> jsval" where
  "env_value v = (case v of None \<Rightarrow> JUndefined | Some s \<Rightarrow> JString s)"

record github_context =
  gh_eventName :: jsstring
  gh_action :: "jsstring option"
  gh_payload :: payload
  gh_repo_owner :: jsstring
  gh_repo_repo :: jsstring
  gh_actor :: jsstring

record action_inputs =
  triggerPhrase :: jsstring
  assigneeTrigger :: jsstring
  labelTriggers :: "jsstring list"
  allowedTools :: "jsstring list"
  disallowedTools :: "jsstring list"
  customInstructions :: jsstring
  directPrompt :: jsstring
  baseBranch :: "jsstring option"

record repository =
  owner :: jsstring
  repo :: jsstring
  full_name :: jsstring

record ParsedGitHubContext =
  runId :: "jsstring option"
  eventName :: jsstring
  eventAction :: "jsstring option"
  repository :: repository
  actor :: jsstring
  payload :: payload
  entityNumber :: js_number
  isPR :: bool
  inputs :: action_inputs


section \<open>The context normalizer\<close>

text \<open>
  \<open>parseGitHubContext\<close> (context.ts, lines 44 to 166). The three lists of the inputs are
  parsed by the expressions of lines 60 to 85; the switch on the event name follows at
  lines 92 to 165, each cast \<open>context.payload as ...\<close> being a property read at run time.
\<close>

definition split_trim :: "code_unit \<Rightarrow> jsstring \<Rightarrow> jsstring list" where
  "split_trim sep s = filter (\<lambda>x. length x > 0) (map js_trim (js_split sep s))"

definition parse_labelTriggers :: "jsstring option \<Rightarrow> jsstring list" where
  "parse_labelTriggers v =
     (let labelTriggerInput = nullish v []
      in if labelTriggerInput = [] then []
         else if 0x0A \<in> set labelTriggerInput then split_trim 0x0A labelTriggerInput
         else split_trim (of_char CHR '','') labelTriggerInput)"

definition parse_allowedTools :: "jsstring option \<Rightarrow> jsstring list" where
  "parse_allowedTools v = split_trim (of_char CHR '','') (nullish v [])"

definition parse_disallowedTools :: "jsstring option \<Rightarrow> jsstring list" where
  "parse_disallowedTools v = split_trim (of_char CHR '','') (nullish v [])"

definition commonInputs :: "process_env \<Rightarrow> action_inputs" where
  "commonInputs env =
     \<lparr> triggerPhrase = nullish (TRIGGER_PHRASE env) (js ''@claude''),
       assigneeTrigger = nullish (ASSIGNEE_TRIGGER env) [],
       labelTriggers = parse_labelTriggers (LABEL_TRIGGER env),
       allowedTools = parse_allowedTools (ALLOWED_TOOLS env),
       disallowedTools = parse_disallowedTools (DISALLOWED_TOOLS env),
       customInstructions = nullish (CUSTOM_INSTRUCTIONS env) [],
       directPrompt = nullish (DIRECT_PROMPT env) [],
       baseBranch = BASE_BRANCH env \<rparr>"

definition commonFields ::
  "process_env \<Rightarrow> github_context \<Rightarrow> js_number \<Rightarrow> bool \<Rightarrow> ParsedGitHubContext" where
  "commonFields env context n pr =
     \<lparr> runId = GITHUB_RUN_ID env,
       eventName = gh_eventName context,
       eventAction = gh_action context,
       repository =
         \<lparr> owner = gh_repo_owner context,
           repo = gh_repo_repo context,
           full_name = gh_repo_owner context @ js ''/'' @ gh_repo_repo context \<rparr>,
       actor = gh_actor context,
       payload = gh_payload context,
       entityNumber = n,
       isPR = pr,
       inputs = commonInputs env \<rparr>"

definition dispatch_entityNumber :: "jsval \<Rightarrow> error + js_number" where
  "dispatch_entityNumber prNumber =
     (if truthy prNumber then
        (case toString prNumber of Inl e \<Rightarrow> Inl e | Inr s \<Rightarrow> Inr (parseInt10 s))
      else Inr (Integer 0))"

definition parseGitHubContext :: "process_env \<Rightarrow> github_context \<Rightarrow> error + ParsedGitHubContext" where
  "parseGitHubContext env context =
     (if gh_eventName context = js ''issues'' then
        (case payload_issue (gh_payload context) of
           None \<Rightarrow> Inl TypeError
         | Some i \<Rightarrow> Inr (commonFields env context (Integer (issue_number i)) False))
      else if gh_eventName context = js ''issue_comment'' then
        (case payload_issue (gh_payload context) of
           None \<Rightarrow> Inl TypeError
         | Some i \<Rightarrow>
             Inr (commonFields env context (Integer (issue_number i))
                    (issue_pull_request i \<noteq> None)))
      else if gh_eventName context = js ''pull_request'' then
        (case payload_pull_request (gh_payload context) of
           None \<Rightarrow> Inl TypeError
         | Some p \<Rightarrow> Inr (commonFields env context (Integer (pull_request_number p)) True))
      else if gh_eventName context = js ''pull_request_review'' then
        (case payload_pull_request (gh_payload context) of
           None \<Rightarrow> Inl TypeError
         | Some p \<Rightarrow> Inr (commonFields env context (Integer (pull_request_number p)) True))
      else if gh_eventName context = js ''pull_request_review_comment'' then
        (case payload_pull_request (gh_payload context) of
           None \<Rightarrow> Inl TypeError
         | Some p \<Rightarrow> Inr (commonFields env context (Integer (pull_request_number p)) True))
      else if gh_eventName context = js ''repository_dispatch'' then
        (let prNumber = optional_chain (payload_client_payload (gh_payload context)) client_pr_number;
             pr = (optional_chain (payload_client_payload (gh_payload context)) client_is_pr = JBool True
                   \<or> truthy prNumber)
         in case dispatch_entityNumber prNumber of
              Inl e \<Rightarrow> Inl e
            | Inr n \<Rightarrow> Inr (commonFields env context n pr))
      else if gh_eventName context = js ''workflow_dispatch'' then
        (let prNumber = optional_chain (payload_inputs (gh_payload context)) inputs_pr_number;
             pr = (optional_chain (payload_inputs (gh_payload context)) inputs_is_pr
                     = JString (js ''true'')
                   \<or> truthy prNumber)
         in case dispatch_entityNumber prNumber of
              Inl e \<Rightarrow> Inl e
            | Inr n \<Rightarrow> Inr (commonFields env context n pr))
      else Inl (Unsupported_event_type (gh_eventName context)))"

definition isIssuesEvent :: "ParsedGitHubContext \<Rightarrow> bool" where
  "isIssuesEvent context \<longleftrightarrow> eventName context = js ''issues''"

definition isIssueCommentEvent :: "ParsedGitHubContext \<Rightarrow> bool" where
  "isIssueCommentEvent context \<longleftrightarrow> eventName context = js ''issue_comment''"

definition isPullRequestEvent :: "ParsedGitHubContext \<Rightarrow> bool" where
  "isPullRequestEvent context \<longleftrightarrow> eventName context = js ''pull_request''"

definition isPullRequestReviewEvent :: "ParsedGitHubContext \<Rightarrow> bool" where
  "isPullRequestReviewEvent context \<longleftrightarrow> eventName context = js ''pull_request_review''"

definition isPullRequestReviewCommentEvent :: "ParsedGitHubContext \<Rightarrow> bool" where
  "isPullRequestReviewCommentEvent context \<longleftrightarrow>
     eventName context = js ''pull_request_review_comment''"

definition isWorkflowDispatchEvent :: "ParsedGitHubContext \<Rightarrow> bool" where
  "isWorkflowDispatchEvent context \<longleftrightarrow> eventName context = js ''workflow_dispatch''"

definition isRepositoryDispatchEvent :: "ParsedGitHubContext \<Rightarrow> bool" where
  "isRepositoryDispatchEvent context \<longleftrightarrow> eventName context = js ''repository_dispatch''"

section \<open>The trigger evaluator\<close>

text \<open>
  \<open>checkContainsTrigger\<close> (trigger check, lines 15 to 204) returns a boolean and writes one
  line to the log on every path. The model returns both: the boolean and the log line, with
  the values that the line interpolates. An exception is the left summand of the result.
  The source is a chain of \<open>if\<close> blocks; a block that does not return falls through to the
  next one, which \<open>first_return\<close> expresses over the blocks in their order.
\<close>

datatype log_line =
    Direct_prompt_provided
  | Workflow_dispatch_for_PR jsval
  | Workflow_dispatch_with_prompt
  | Workflow_dispatch_nothing_provided
  | Repository_dispatch_for_PR jsval
  | Repository_dispatch_for_issue jsval
  | Repository_dispatch_with_prompt
  | Repository_dispatch_nothing_provided
  | Issue_assigned_to_trigger_user jsstring
  | Issue_labeled_with_trigger_label jsstring "jsstring list"
  | Issue_body_contains jsstring
  | Issue_title_contains jsstring
  | Pull_request_body_contains jsstring
  | Pull_request_title_contains jsstring
  | Pull_request_review_contains jsstring
  | Comment_contains jsstring
  | No_trigger_was_met jsstring

type_synonym decision = "bool \<times> log_line"

fun first_return :: "(error + decision option) list \<Rightarrow> decision \<Rightarrow> error + decision" where
  "first_return [] d = Inr d"
| "first_return (Inl e # rules) d = Inl e"
| "first_return (Inr (Some r) # rules) d = Inr r"
| "first_return (Inr None # rules) d = first_return rules d"

definition strip_at :: "jsstring \<Rightarrow> jsstring" where
  "strip_at s = (case s of [] \<Rightarrow> [] | c # cs \<Rightarrow> if c = of_char CHR ''@'' then cs else s)"

definition workflow_dispatch_rule :: "process_env \<Rightarrow> ParsedGitHubContext \<Rightarrow> decision" where
  "workflow_dispatch_rule env context =
     (let prNumber =
            js_or (optional_chain (payload_inputs (payload context)) inputs_pr_number)
              (js_or (JString (getInput (INPUT_PR_NUMBER env))) (env_value (PR_NUMBER env)))
      in if truthy prNumber then (True, Workflow_dispatch_for_PR prNumber)
         else
           (let workflowPrompt =
                  js_or (optional_chain (payload_inputs (payload context)) inputs_prompt)
                    (js_or (JString (getInput (INPUT_PROMPT env))) (env_value (PROMPT env)))
            in if truthy workflowPrompt then (True, Workflow_dispatch_with_prompt)
               else (False, Workflow_dispatch_nothing_provided)))"

definition repository_dispatch_rule :: "ParsedGitHubContext \<Rightarrow> decision" where
  "repository_dispatch_rule context =
     (let prNumber = optional_chain (payload_client_payload (payload context)) client_pr_number;
          issueNumber = optional_chain (payload_client_payload (payload context)) client_issue_number
      in if truthy prNumber then (True, Repository_dispatch_for_PR prNumber)
         else if truthy issueNumber then (True, Repository_dispatch_for_issue issueNumber)
         else
           (let repositoryPrompt =
                  optional_chain (payload_client_payload (payload context)) client_prompt
            in if truthy repositoryPrompt then (True, Repository_dispatch_with_prompt)
               else (False, Repository_dispatch_nothing_provided)))"

definition assignee_rule :: "ParsedGitHubContext \<Rightarrow> error + decision option" where
  "assignee_rule context =
     (if isIssuesEvent context \<and> eventAction context = Some (js ''assigned'') then
        (let triggerUser = strip_at (assigneeTrigger (inputs context))
         in case payload_issue (payload context) of
              None \<Rightarrow> Inl TypeError
            | Some i \<Rightarrow>
                (let assigneeUsername =
                       (case issue_assignee i of None \<Rightarrow> [] | Some u \<Rightarrow> or_empty (login u))
                 in if triggerUser \<noteq> [] \<and> assigneeUsername = triggerUser
                    then Inr (Some (True, Issue_assigned_to_trigger_user triggerUser))
                    else Inr None))
      else Inr None)"

definition label_rule :: "ParsedGitHubContext \<Rightarrow> error + decision option" where
  "label_rule context =
     (if isIssuesEvent context \<and> eventAction context = Some (js ''labeled'') then
        (let labelName =
               (case payload_label (payload context) of
                  None \<Rightarrow> []
                | Some l \<Rightarrow> or_empty (label_name l))
         in if length (labelTriggers (inputs context)) > 0 \<and> labelName \<noteq> []
               \<and> labelName \<in> set (labelTriggers (inputs context))
            then Inr (Some (True,
                   Issue_labeled_with_trigger_label labelName (labelTriggers (inputs context))))
            else Inr None)
      else Inr None)"

definition issue_opened_rule :: "ParsedGitHubContext \<Rightarrow> error + decision option" where
  "issue_opened_rule context =
     (if isIssuesEvent context \<and> eventAction context = Some (js ''opened'') then
        (case payload_issue (payload context) of
           None \<Rightarrow> Inl TypeError
         | Some i \<Rightarrow>
             (let issueBody = or_empty (issue_body i);
                  issueTitle = or_empty (issue_title i)
              in case RegExp (trigger_pattern (triggerPhrase (inputs context))) of
                   Inl e \<Rightarrow> Inl e
                 | Inr regex \<Rightarrow>
                     if test regex issueBody
                     then Inr (Some (True, Issue_body_contains (triggerPhrase (inputs context))))
                     else if test regex issueTitle
                     then Inr (Some (True, Issue_title_contains (triggerPhrase (inputs context))))
                     else Inr None))
      else Inr None)"

definition pull_request_rule :: "ParsedGitHubContext \<Rightarrow> error + decision option" where
  "pull_request_rule context =
     (if isPullRequestEvent context then
        (case payload_pull_request (payload context) of
           None \<Rightarrow> Inl TypeError
         | Some p \<Rightarrow>
             (let prBody = or_empty (pull_request_body p);
                  prTitle = or_empty (pull_request_title p)
              in case RegExp (trigger_pattern (triggerPhrase (inputs context))) of
                   Inl e \<Rightarrow> Inl e
                 | Inr regex \<Rightarrow>
                     if test regex prBody
                     then Inr (Some (True,
                            Pull_request_body_contains (triggerPhrase (inputs context))))
                     else if test regex prTitle
                     then Inr (Some (True,
                            Pull_request_title_contains (triggerPhrase (inputs context))))
                     else Inr None))
      else Inr None)"

definition review_rule :: "ParsedGitHubContext \<Rightarrow> error + decision option" where
  "review_rule context =
     (if isPullRequestReviewEvent context
         \<and> (eventAction context = Some (js ''submitted'')
              \<or> eventAction context = Some (js ''edited'')) then
        (case payload_review (payload context) of
           None \<Rightarrow> Inl TypeError
         | Some r \<Rightarrow>
             (let reviewBody = or_empty (review_body r)
              in case RegExp (trigger_pattern (triggerPhrase (inputs context))) of
                   Inl e \<Rightarrow> Inl e
                 | Inr regex \<Rightarrow>
                     if test regex reviewBody
                     then Inr (Some (True,
                            Pull_request_review_contains (triggerPhrase (inputs context))))
                     else Inr None))
      else Inr None)"

definition comment_rule :: "ParsedGitHubContext \<Rightarrow> error + decision option" where
  "comment_rule context =
     (if isIssueCommentEvent context \<or> isPullRequestReviewCommentEvent context then
        (case payload_comment (payload context) of
           None \<Rightarrow> Inl TypeError
         | Some c \<Rightarrow>
             (let commentBody = comment_body c
              in case RegExp (trigger_pattern (triggerPhrase (inputs context))) of
                   Inl e \<Rightarrow> Inl e
                 | Inr regex \<Rightarrow>
                     if test regex (ToString commentBody)
                     then Inr (Some (True, Comment_contains (triggerPhrase (inputs context))))
                     else Inr None))
      else Inr None)"

definition checkContainsTrigger :: "process_env \<Rightarrow> ParsedGitHubContext \<Rightarrow> error + decision" where
  "checkContainsTrigger env context =
     (if directPrompt (inputs context) \<noteq> [] then Inr (True, Direct_prompt_provided)
      else if isWorkflowDispatchEvent context then Inr (workflow_dispatch_rule env context)
      else if isRepositoryDispatchEvent context then Inr (repository_dispatch_rule context)
      else first_return
             [assignee_rule context, label_rule context, issue_opened_rule context,
              pull_request_rule context, review_rule context, comment_rule context]
             (False, No_trigger_was_met (triggerPhrase (inputs context))))"

section \<open>Definitions used to state the properties\<close>

subsection \<open>The trigger-phrase matcher\<close>

text \<open>
  Every body, title and comment rule builds the same pattern from the trigger phrase and
  applies \<open>test\<close> to a text; \<open>matcher\<close> names that pair of steps.
\<close>

definition matcher :: "jsstring \<Rightarrow> jsstring \<Rightarrow> error + bool" where
  "matcher phrase str =
     (case RegExp (trigger_pattern phrase) of
        Inl e \<Rightarrow> Inl e
      | Inr regex \<Rightarrow> Inr (test regex str))"

definition followers :: "class_item list" where
  "followers =
     [Item_space, Item_char (of_char CHR ''.''), Item_char (of_char CHR '',''),
      Item_char (of_char CHR ''!''), Item_char (of_char CHR ''?''),
      Item_char (of_char CHR '';''), Item_char (of_char CHR '':'')]"

definition literal :: "jsstring \<Rightarrow> node \<Rightarrow> node" where
  "literal p k = foldr (\<lambda>c. Seq (Match_char c)) p k"

definition trigger_node :: "jsstring \<Rightarrow> node" where
  "trigger_node p =
     Seq (Alt (Seq Assert_start Empty) (Seq Space_class Empty))
       (literal p (Seq (Alt (Seq (Char_class followers) Empty) (Seq Assert_end Empty)) Empty))"

definition code_follower :: "code_unit \<Rightarrow> bool" where
  "code_follower c \<longleftrightarrow> is_white_space c \<or> c \<in> set (js ''.,!?;:'')"

text \<open>
  The follower set in the words of the specification: the space character and six
  punctuation marks.
\<close>

definition spec_follower :: "code_unit \<Rightarrow> bool" where
  "spec_follower c \<longleftrightarrow> c \<in> set (js '' .,!?;:'')"

definition starts_with :: "(code_unit \<Rightarrow> bool) \<Rightarrow> jsstring \<Rightarrow> jsstring \<Rightarrow> bool" where
  "starts_with F p s \<longleftrightarrow>
     take (length p) s = p \<and> (case drop (length p) s of [] \<Rightarrow> True | x # _ \<Rightarrow> F x)"

fun scan :: "(code_unit \<Rightarrow> bool) \<Rightarrow> jsstring \<Rightarrow> bool \<Rightarrow> jsstring \<Rightarrow> bool" where
  "scan F p ok [] = (ok \<and> p = [])"
| "scan F p ok (c # cs) = ((ok \<and> starts_with F p (c # cs)) \<or> scan F p (is_white_space c) cs)"

text \<open>
  The phrase occurs in the text at its start or right after a white-space character, and
  is followed by the end of the text or by a character accepted by \<open>F\<close>.
\<close>

definition delimited_occurrence :: "(code_unit \<Rightarrow> bool) \<Rightarrow> jsstring \<Rightarrow> jsstring \<Rightarrow> bool" where
  "delimited_occurrence F p str \<longleftrightarrow>
     (\<exists>pre post. str = pre @ p @ post
        \<and> (pre = [] \<or> is_white_space (last pre))
        \<and> (post = [] \<or> F (hd post)))"

subsection \<open>Delimited lists\<close>

text \<open>
  The parsing policy in the words of the specification: the empty string gives the empty
  sequence; otherwise the string is split on line feeds when it contains one and on commas
  when it does not; every element is trimmed and the elements that are then empty are
  dropped.
\<close>

definition spec_delimited_list :: "jsstring \<Rightarrow> jsstring list" where
  "spec_delimited_list raw =
     (if raw = [] then []
      else filter (\<lambda>x. x \<noteq> [])
             (map js_trim (js_split (if 0x0A \<in> set raw then 0x0A else of_char CHR '','') raw)))"

definition trimmed :: "jsstring \<Rightarrow> bool" where
  "trimmed x \<longleftrightarrow> x \<noteq> [] \<and> \<not> is_white_space (hd x) \<and> \<not> is_white_space (last x)"

definition lines_abc :: jsstring where
  "lines_abc = js ''a'' @ [0x0A] @ js ''b'' @ [0x0A] @ js ''c''"

subsection \<open>Events\<close>

text \<open>The event name under which the platform delivers each payload shape.\<close>

fun event_name :: "payload \<Rightarrow> jsstring" where
  "event_name (IssuesEvent i l) = js ''issues''"
| "event_name (IssueCommentEvent i c) = js ''issue_comment''"
| "event_name (PullRequestEvent p) = js ''pull_request''"
| "event_name (PullRequestReviewEvent p r) = js ''pull_request_review''"
| "event_name (PullRequestReviewCommentEvent p c) = js ''pull_request_review_comment''"
| "event_name (WorkflowDispatchEvent i) = js ''workflow_dispatch''"
| "event_name (RepositoryDispatchEvent c) = js ''repository_dispatch''"


fun dispatch_pr_number :: "payload \<Rightarrow> jsval option" where
  "dispatch_pr_number (WorkflowDispatchEvent i) = Some (optional_chain i inputs_pr_number)"
| "dispatch_pr_number (RepositoryDispatchEvent c) = Some (optional_chain c client_pr_number)"
| "dispatch_pr_number _ = None"



subsection \<open>Concrete inputs\<close>

definition empty_env :: process_env where
  "empty_env =
     \<lparr> GITHUB_RUN_ID = None, TRIGGER_PHRASE = None, ASSIGNEE_TRIGGER = None,
       LABEL_TRIGGER = None, ALLOWED_TOOLS = None, DISALLOWED_TOOLS = None,
       CUSTOM_INSTRUCTIONS = None, DIRECT_PROMPT = None, BASE_BRANCH = None,
       PR_NUMBER = None, PROMPT = None, INPUT_PR_NUMBER = None, INPUT_PROMPT = None \<rparr>"

definition raw_event :: "jsstring \<Rightarrow> jsstring option \<Rightarrow> payload \<Rightarrow> github_context" where
  "raw_event name action p =
     \<lparr> gh_eventName = name, gh_action = action, gh_payload = p,
       gh_repo_owner = js ''test-owner'', gh_repo_repo = js ''test-repo'',
       gh_actor = js ''test-actor'' \<rparr>"


definition example_issue :: issue where
  "example_issue =
     \<lparr> issue_number = 42,
       issue_body = Text (js ''Please see @claude for details.''),
       issue_title = Text (js ''Fix bug''),
       issue_assignee = Some \<lparr> login = Text (js ''claude-bot'') \<rparr>,
       issue_pull_request = None \<rparr>"




definition pr_comment_event :: github_context where
  "pr_comment_event =
     raw_event (js ''issue_comment'') (Some (js ''created''))
       (IssueCommentEvent (example_issue \<lparr> issue_pull_request := Some () \<rparr>)
          \<lparr> comment_body = Text (js ''@claude please review'') \<rparr>)"

subsection \<open>Contexts for the trigger evaluator\<close>

definition default_inputs :: action_inputs where
  "default_inputs = commonInputs empty_env"

definition make_context ::
  "jsstring \<Rightarrow> jsstring option \<Rightarrow> payload \<Rightarrow> action_inputs \<Rightarrow> ParsedGitHubContext" where
  "make_context name action p cfg =
     \<lparr> runId = Some (js ''1''), eventName = name, eventAction = action,
       repository =
         \<lparr> owner = js ''test-owner'', repo = js ''test-repo'',
           full_name = js ''test-owner/test-repo'' \<rparr>,
       actor = js ''test-actor'', payload = p, entityNumber = Integer 0, isPR = False,
       inputs = cfg \<rparr>"



text \<open>
  A value is present somewhere in the fallback chain of the workflow-dispatch rule: in the
  dispatch inputs, in the named action input, or in the environment variable.
\<close>

definition chain_present :: "jsval \<Rightarrow> jsstring option \<Rightarrow> jsstring option \<Rightarrow> bool" where
  "chain_present structured input_var env_var \<longleftrightarrow>
     truthy structured \<or> getInput input_var \<noteq> []
     \<or> (case env_var of None \<Rightarrow> False | Some s \<Rightarrow> s \<noteq> [])"





definition absent :: "text_field \<Rightarrow> bool" where
  "absent t \<longleftrightarrow> t = Missing \<or> t = Null"

subsection \<open>Concrete contexts\<close>

definition quiet_issue :: issue where
  "quiet_issue =
     \<lparr> issue_number = 7, issue_body = Text (js ''Nothing to see here''),
       issue_title = Text (js ''Fix bug''), issue_assignee = None, issue_pull_request = None \<rparr>"

definition direct_prompt_context :: ParsedGitHubContext where
  "direct_prompt_context =
     make_context (js ''issues'') (Some (js ''opened'')) (IssuesEvent quiet_issue None)
       (default_inputs \<lparr> directPrompt := js ''Summarise this issue'' \<rparr>)"

definition client :: "jsval \<Rightarrow> jsval \<Rightarrow> jsval \<Rightarrow> client_payload" where
  "client n i p =
     \<lparr> client_pr_number = n, client_is_pr = JUndefined, client_issue_number = i,
       client_prompt = p \<rparr>"

definition repository_dispatch_context :: "client_payload option \<Rightarrow> ParsedGitHubContext" where
  "repository_dispatch_context cp =
     make_context (js ''repository_dispatch'') None (RepositoryDispatchEvent cp) default_inputs"

definition workflow_dispatch_context :: "dispatch_inputs option \<Rightarrow> ParsedGitHubContext" where
  "workflow_dispatch_context i =
     make_context (js ''workflow_dispatch'') None (WorkflowDispatchEvent i) default_inputs"



definition opened_context :: "text_field \<Rightarrow> text_field \<Rightarrow> ParsedGitHubContext" where
  "opened_context body title =
     make_context (js ''issues'') (Some (js ''opened''))
       (IssuesEvent (quiet_issue \<lparr> issue_body := body, issue_title := title \<rparr>) None)
       default_inputs"

section \<open>The trigger-phrase matcher\<close>

lemma lex_escapeRegExp:
  "lex None (escapeRegExp p @ rest) = map_option ((@) (map (T_atom \<circ> Match_char) p)) (lex None rest)"
proof (induction p)
  case Nil
  show ?case by (simp add: option.map_ident)
next
  case (Cons c p)
  show ?case
  proof (cases "c \<in> set syntax_characters")
    case True
    then show ?thesis using Cons
      by (auto simp add: backslash_def syntax_characters_def js_def option.map_comp comp_def)
  next
    case False
    then show ?thesis using Cons
      by (simp add: backslash_def syntax_characters_def js_def option.map_comp comp_def)
  qed
qed

lemma lex_trigger_pattern:
  "lex None (trigger_pattern p) =
     Some ([T_open, T_atom Assert_start, T_bar, T_atom Space_class, T_close]
       @ map (T_atom \<circ> Match_char) p
       @ [T_open, T_atom (Char_class followers), T_bar, T_atom Assert_end, T_close])"
  by (simp add: trigger_pattern_def js_def backslash_def syntax_characters_def lex_escapeRegExp followers_def)

lemma parse_atoms:
  "parse ((alts, cur) # st) (map T_atom as @ ts) = parse ((alts, rev as @ cur) # st) ts"
  by (induction as arbitrary: cur) simp_all

lemma foldr_Seq_literal: "foldr Seq (map Match_char p) k = literal p k"
  by (induction p) (simp_all add: literal_def)

lemma parse_trigger_tokens:
  "parse [([], [])] ([T_open, T_atom Assert_start, T_bar, T_atom Space_class, T_close]
       @ map (T_atom \<circ> Match_char) p
       @ [T_open, T_atom (Char_class followers), T_bar, T_atom Assert_end, T_close])
   = Some (trigger_node p)"
proof -
  have "map (T_atom \<circ> Match_char) p = map T_atom (map Match_char p)" by simp
  then show ?thesis
    by (simp add: parse_atoms close_frame_def sequence_def trigger_node_def foldr_Seq_literal
             del: map_map)
qed

lemma RegExp_trigger_pattern: "RegExp (trigger_pattern p) = Inr (trigger_node p)"
  by (simp only: RegExp_def lex_trigger_pattern parse_trigger_tokens option.case)

lemma class_has_followers: "class_has followers x = code_follower x"
  by (auto simp add: followers_def code_follower_def js_def)

lemma step_literal:
  "step (literal p k) (i, s) =
     (if take (length p) s = p then step k (i + length p, drop (length p) s) else [])"
proof (induction p arbitrary: i s)
  case Nil
  show ?case by (simp add: literal_def)
next
  case (Cons c p)
  have unfold: "literal (c # p) k = Seq (Match_char c) (literal p k)"
    by (simp add: literal_def)
  show ?case
  proof (cases s)
    case Nil
    then show ?thesis by (simp add: unfold)
  next
    case (Cons x xs)
    then show ?thesis by (simp add: unfold Cons.IH)
  qed
qed

lemma step_tail:
  "step (Seq (Alt (Seq (Char_class followers) Empty) (Seq Assert_end Empty)) Empty) (i, s) \<noteq> []
     \<longleftrightarrow> (case s of [] \<Rightarrow> True | x # _ \<Rightarrow> code_follower x)"
  by (cases s) (simp_all add: class_has_followers)

lemma step_trigger_node:
  "step (trigger_node p) (i, s) \<noteq> [] \<longleftrightarrow>
     (i = 0 \<and> starts_with code_follower p s)
     \<or> (case s of [] \<Rightarrow> False | x # xs \<Rightarrow> is_white_space x \<and> starts_with code_follower p xs)"
proof -
  let ?k = "Seq (Alt (Seq (Char_class followers) Empty) (Seq Assert_end Empty)) Empty"
  have lit: "\<And>j t. step (literal p ?k) (j, t) \<noteq> [] \<longleftrightarrow> starts_with code_follower p t"
  proof -
    fix j t
    show "step (literal p ?k) (j, t) \<noteq> [] \<longleftrightarrow> starts_with code_follower p t"
      unfolding step_literal starts_with_def
      by (cases "take (length p) t = p") (simp_all only: if_True if_False step_tail simp_thms)
  qed
  have "step (trigger_node p) (i, s) =
          (if i = 0 then step (literal p ?k) (i, s) else [])
          @ (case s of [] \<Rightarrow> [] | x # xs \<Rightarrow>
               if is_white_space x then step (literal p ?k) (Suc i, xs) else [])"
    by (cases s) (simp_all add: trigger_node_def)
  then show ?thesis using lit by (cases s) auto
qed

lemma scan_iff:
  "scan F p ok str \<longleftrightarrow>
     (ok \<and> starts_with F p str)
     \<or> (\<exists>i < length str. is_white_space (str ! i) \<and> starts_with F p (drop (Suc i) str))"
proof (induction str arbitrary: ok)
  case Nil
  show ?case by (auto simp add: starts_with_def)
next
  case (Cons c cs)
  have "(\<exists>i < length (c # cs). is_white_space ((c # cs) ! i) \<and> starts_with F p (drop (Suc i) (c # cs)))
        \<longleftrightarrow> (is_white_space c \<and> starts_with F p cs)
          \<or> (\<exists>i < length cs. is_white_space (cs ! i) \<and> starts_with F p (drop (Suc i) cs))"
    (is "?L \<longleftrightarrow> ?R")
  proof
    assume ?L
    then obtain i where i: "i < length (c # cs)" "is_white_space ((c # cs) ! i)"
      "starts_with F p (drop (Suc i) (c # cs))" by blast
    show ?R
    proof (cases i)
      case 0
      with i show ?thesis by simp
    next
      case (Suc j)
      with i show ?thesis by auto
    qed
  next
    assume ?R
    then show ?L
    proof
      assume "is_white_space c \<and> starts_with F p cs"
      then show ?L by (intro exI [of _ 0]) simp
    next
      assume "\<exists>i < length cs. is_white_space (cs ! i) \<and> starts_with F p (drop (Suc i) cs)"
      then obtain j where "j < length cs" "is_white_space (cs ! j)" "starts_with F p (drop (Suc j) cs)"
        by blast
      then show ?L by (intro exI [of _ "Suc j"]) simp
    qed
  qed
  then show ?case by (simp add: Cons.IH)
qed

lemma test_trigger_node: "test (trigger_node p) str = scan code_follower p True str"
proof -
  have "test (trigger_node p) str \<longleftrightarrow>
          (\<exists>i \<le> length str. step (trigger_node p) (i, drop i str) \<noteq> [])"
  proof -
    have "set [0..<Suc (length str)] = {i. i \<le> length str}" by auto
    then show ?thesis unfolding test_def list_ex_iff by blast
  qed
  also have "\<dots> \<longleftrightarrow> starts_with code_follower p str
      \<or> (\<exists>i < length str. is_white_space (str ! i) \<and> starts_with code_follower p (drop (Suc i) str))"
    (is "?L \<longleftrightarrow> ?R")
  proof
    assume ?L
    then obtain i where i: "i \<le> length str" "step (trigger_node p) (i, drop i str) \<noteq> []"
      by blast
    from i(2) consider "i = 0" "starts_with code_follower p (drop i str)"
      | x xs where "drop i str = x # xs" "is_white_space x" "starts_with code_follower p xs"
      by (auto simp add: step_trigger_node split: list.splits)
    then show ?R
    proof cases
      case 1
      then show ?thesis by simp
    next
      case 2
      from 2(1) have lt: "i < length str" using i(1) by (cases "i = length str") auto
      from 2(1) lt have "str ! i = x" by (metis Cons_nth_drop_Suc list.inject)
      moreover from 2(1) lt have "drop (Suc i) str = xs" by (metis Cons_nth_drop_Suc list.inject)
      ultimately show ?thesis using 2 lt by blast
    qed
  next
    assume ?R
    then show ?L
    proof
      assume "starts_with code_follower p str"
      then have "step (trigger_node p) (0, drop 0 str) \<noteq> []" by (simp add: step_trigger_node)
      then show ?L by blast
    next
      assume "\<exists>i < length str. is_white_space (str ! i) \<and> starts_with code_follower p (drop (Suc i) str)"
      then obtain i where i: "i < length str" "is_white_space (str ! i)"
        "starts_with code_follower p (drop (Suc i) str)" by blast
      have "drop i str = str ! i # drop (Suc i) str" using i(1) by (simp add: Cons_nth_drop_Suc)
      then have "step (trigger_node p) (i, drop i str) \<noteq> []"
        using i by (simp add: step_trigger_node)
      then show ?L using i(1) by (intro exI [of _ i]) simp
    qed
  qed
  finally show ?thesis by (simp add: scan_iff)
qed

lemma starts_with_iff:
  "starts_with F p s \<longleftrightarrow> (\<exists>post. s = p @ post \<and> (post = [] \<or> F (hd post)))"
proof
  assume a: "starts_with F p s"
  then have "s = p @ drop (length p) s" by (metis append_take_drop_id starts_with_def)
  moreover from a have "drop (length p) s = [] \<or> F (hd (drop (length p) s))"
    by (auto simp add: starts_with_def split: list.splits)
  ultimately show "\<exists>post. s = p @ post \<and> (post = [] \<or> F (hd post))" by blast
next
  assume "\<exists>post. s = p @ post \<and> (post = [] \<or> F (hd post))"
  then show "starts_with F p s" by (auto simp add: starts_with_def split: list.splits)
qed

lemma scan_delimited: "scan F p True str = delimited_occurrence F p str"
proof -
  have "(\<exists>i < length str. is_white_space (str ! i) \<and> starts_with F p (drop (Suc i) str))
        \<longleftrightarrow> (\<exists>pre post. pre \<noteq> [] \<and> str = pre @ p @ post \<and> is_white_space (last pre)
              \<and> (post = [] \<or> F (hd post)))" (is "?L \<longleftrightarrow> ?R")
  proof
    assume ?L
    then obtain i post where i: "i < length str" "is_white_space (str ! i)"
      "drop (Suc i) str = p @ post" "post = [] \<or> F (hd post)"
      by (auto simp add: starts_with_iff)
    let ?pre = "take (Suc i) str"
    have "?pre \<noteq> []" using i(1) by auto
    moreover have "str = ?pre @ p @ post" using i(3) by (metis append_take_drop_id)
    moreover have "last ?pre = str ! i" using i(1) by (simp add: take_Suc_conv_app_nth)
    ultimately show ?R using i(2,4) by metis
  next
    assume ?R
    then obtain pre post where r: "pre \<noteq> []" "str = pre @ p @ post" "is_white_space (last pre)"
      "post = [] \<or> F (hd post)" by blast
    let ?i = "length pre - 1"
    have "?i < length str" using r(1,2) by (cases pre) auto
    moreover have "str ! ?i = last pre" using r(1,2) by (simp add: nth_append last_conv_nth)
    moreover have "drop (Suc ?i) str = p @ post" using r(1,2) by simp
    ultimately show ?L using r(3,4) by (metis starts_with_iff)
  qed
  moreover have "starts_with F p str \<longleftrightarrow> (\<exists>post. str = [] @ p @ post \<and> (post = [] \<or> F (hd post)))"
    by (simp add: starts_with_iff)
  ultimately show ?thesis
    unfolding scan_iff delimited_occurrence_def by (metis (no_types, opaque_lifting) append_Nil)
qed

lemma matcher_scan: "matcher p str = Inr (scan code_follower p True str)"
  by (simp add: matcher_def RegExp_trigger_pattern test_trigger_node)

text \<open>
  Claim C1, as amended. For every trigger phrase and every text, building the pattern never
  fails and the matcher accepts the text iff the literal phrase occurs at the very start of
  the text or immediately after a white-space character, and is immediately followed by the
  end of the text, by a white-space character (any character of the class \<open>\s\<close>: space,
  tab, line feed, ...), or by one of the characters \<open>. , ! ? ; :\<close>. For the phrase
  \<open>@claude\<close>: the text \<open>@claude\<close> matches, \<open>hi @claude,\<close> matches, \<open>@claudesomething\<close> does
  not match, \<open>foo@claude\<close> does not match, and the empty text does not match.
\<close>

theorem trigger_phrase_boundary_match:
  "matcher p str =
     Inr (\<exists>pre post. str = pre @ p @ post
            \<and> (pre = [] \<or> is_white_space (last pre))
            \<and> (post = [] \<or> is_white_space (hd post) \<or> hd post \<in> set (js ''.,!?;:'')))
   \<and> matcher (js ''@claude'') (js ''@claude'') = Inr True
   \<and> matcher (js ''@claude'') (js ''hi @claude,'') = Inr True
   \<and> matcher (js ''@claude'') (js ''@claudesomething'') = Inr False
   \<and> matcher (js ''@claude'') (js ''foo@claude'') = Inr False
   \<and> matcher (js ''@claude'') [] = Inr False"
proof -
  have general: "matcher p str =
     Inr (\<exists>pre post. str = pre @ p @ post
            \<and> (pre = [] \<or> is_white_space (last pre))
            \<and> (post = [] \<or> is_white_space (hd post) \<or> hd post \<in> set (js ''.,!?;:'')))"
    unfolding matcher_scan scan_delimited delimited_occurrence_def code_follower_def ..
  have e1: "matcher (js ''@claude'') (js ''@claude'') = Inr True"
    by (simp add: matcher_scan js_def starts_with_def)
  have e2: "matcher (js ''@claude'') (js ''hi @claude,'') = Inr True"
    by (simp add: matcher_scan js_def starts_with_def is_white_space_def code_follower_def)
  have e3: "matcher (js ''@claude'') (js ''@claudesomething'') = Inr False"
    by (simp add: matcher_scan js_def starts_with_def is_white_space_def code_follower_def)
  have e4: "matcher (js ''@claude'') (js ''foo@claude'') = Inr False"
    by (simp add: matcher_scan js_def starts_with_def is_white_space_def code_follower_def)
  have e5: "matcher (js ''@claude'') [] = Inr False"
    by (simp add: matcher_scan js_def)
  from general e1 e2 e3 e4 e5 show ?thesis by (intro conjI)
qed

theorem trigger_phrase_boundary_match_witness:
  "matcher (js ''@claude'') (js ''@claude please help'') = Inr True"
proof -
  have "js ''@claude please help'' = [] @ js ''@claude'' @ js '' please help''"
    by (simp add: js_def)
  moreover have "is_white_space (hd (js '' please help''))"
    by (simp add: js_def is_white_space_def)
  ultimately have
    "\<exists>pre post. js ''@claude please help'' = pre @ js ''@claude'' @ post
        \<and> (pre = [] \<or> is_white_space (last pre))
        \<and> (post = [] \<or> is_white_space (hd post) \<or> hd post \<in> set (js ''.,!?;:''))"
    by blast
  then show ?thesis
    using trigger_phrase_boundary_match [of "js ''@claude''" "js ''@claude please help''"]
    by simp
qed

text \<open>
  Claim C1 as stated restricts the follower to the space character and the six punctuation
  marks. The phrase \<open>@claude\<close> followed by a line feed is accepted by the matcher, although
  the text has no occurrence delimited in that narrower sense.
\<close>

theorem trigger_phrase_line_feed_counterexample:
  "matcher (js ''@claude'') (js ''@claude'' @ [0x0A] @ js ''please help'') = Inr True
   \<and> \<not> delimited_occurrence spec_follower (js ''@claude'')
         (js ''@claude'' @ [0x0A] @ js ''please help'')"
proof
  show "matcher (js ''@claude'') (js ''@claude'' @ [0x0A] @ js ''please help'') = Inr True"
    by (simp add: matcher_scan js_def starts_with_def is_white_space_def code_follower_def)
  show "\<not> delimited_occurrence spec_follower (js ''@claude'')
         (js ''@claude'' @ [0x0A] @ js ''please help'')"
    unfolding scan_delimited [symmetric]
    by (simp add: js_def starts_with_def is_white_space_def spec_follower_def)
qed

section \<open>Delimited lists\<close>


lemma last_dropWhile_eq: "dropWhile P xs \<noteq> [] \<Longrightarrow> last (dropWhile P xs) = last xs"
  by (metis last_appendR takeWhile_dropWhile_id)

lemma js_trim_trimmed: "js_trim s \<noteq> [] \<Longrightarrow> trimmed (js_trim s)"
proof -
  assume ne: "js_trim s \<noteq> []"
  let ?t = "dropWhile is_white_space s"
  let ?u = "dropWhile is_white_space (rev ?t)"
  have u: "?u \<noteq> []" using ne by (simp add: js_trim_def)
  then have t: "?t \<noteq> []" by (cases "?t") simp_all
  have "last (js_trim s) = hd ?u" using u by (simp add: js_trim_def last_rev)
  moreover have "\<not> is_white_space (hd ?u)" using u by (rule hd_dropWhile)
  moreover have "hd (js_trim s) = last ?u" using u by (simp add: js_trim_def hd_rev)
  moreover have "last ?u = last (rev ?t)" using u by (rule last_dropWhile_eq)
  moreover have "last (rev ?t) = hd ?t" using t by (simp add: last_rev)
  moreover have "\<not> is_white_space (hd ?t)" using t by (rule hd_dropWhile)
  ultimately show ?thesis using ne by (simp add: trimmed_def)
qed

lemma split_trim_trimmed: "x \<in> set (split_trim sep s) \<Longrightarrow> trimmed x"
  by (auto simp add: split_trim_def js_trim_trimmed)

lemma split_trim_Nil: "split_trim sep [] = []"
  by (simp add: split_trim_def js_trim_def)

lemma split_trim_filter:
  "split_trim sep s = filter (\<lambda>x. x \<noteq> []) (map js_trim (js_split sep s))"
  by (simp add: split_trim_def)

lemma parse_labelTriggers_spec: "parse_labelTriggers (Some raw) = spec_delimited_list raw"
  by (simp add: parse_labelTriggers_def spec_delimited_list_def nullish_def split_trim_filter)

lemma parse_allowedTools_spec:
  "0x0A \<notin> set raw \<Longrightarrow> parse_allowedTools (Some raw) = spec_delimited_list raw"
  by (cases "raw = []")
     (simp_all add: parse_allowedTools_def spec_delimited_list_def nullish_def split_trim_filter
        js_trim_def)

lemma parse_unset:
  "parse_labelTriggers None = []" "parse_allowedTools None = []" "parse_disallowedTools None = []"
  by (simp_all add: parse_labelTriggers_def parse_allowedTools_def parse_disallowedTools_def
        nullish_def split_trim_Nil)

lemma parse_trimmed:
  "x \<in> set (parse_labelTriggers v) \<Longrightarrow> trimmed x"
  "x \<in> set (parse_allowedTools v) \<Longrightarrow> trimmed x"
  "x \<in> set (parse_disallowedTools v) \<Longrightarrow> trimmed x"
  by (auto simp add: parse_labelTriggers_def parse_allowedTools_def parse_disallowedTools_def
        Let_def split_trim_trimmed split: if_splits)

text \<open>
  Claim C2, as amended. Label triggers are parsed by the two-mode policy: the empty (or
  unset) source gives the empty sequence; otherwise the source is split on line feeds when it
  contains one and on commas when it does not, every element is trimmed and empty elements
  are dropped. Allowed tools and disallowed tools are parsed by one and the same function,
  which agrees with that policy on every source that contains no line feed. In all three
  lists every element is non-empty and has no surrounding white space. Label triggers parse
  \<open>a\nb\nc\<close> identically to \<open>a,b,c\<close>.
\<close>

theorem delimited_list_parsing:
  "parse_labelTriggers (Some raw) = spec_delimited_list raw
   \<and> parse_labelTriggers None = [] \<and> parse_allowedTools None = []
   \<and> parse_disallowedTools None = []
   \<and> parse_disallowedTools v = parse_allowedTools v
   \<and> (0x0A \<notin> set raw \<longrightarrow>
        parse_allowedTools (Some raw) = spec_delimited_list raw
        \<and> parse_disallowedTools (Some raw) = spec_delimited_list raw)
   \<and> (\<forall>x \<in> set (parse_labelTriggers v) \<union> set (parse_allowedTools v)
                \<union> set (parse_disallowedTools v). trimmed x)
   \<and> parse_labelTriggers (Some lines_abc) = [js ''a'', js ''b'', js ''c'']
   \<and> parse_labelTriggers (Some (js ''a,b,c'')) = [js ''a'', js ''b'', js ''c'']"
proof -
  have same: "parse_disallowedTools v = parse_allowedTools v"
    by (simp add: parse_disallowedTools_def parse_allowedTools_def)
  have tools: "0x0A \<notin> set raw \<longrightarrow>
        parse_allowedTools (Some raw) = spec_delimited_list raw
        \<and> parse_disallowedTools (Some raw) = spec_delimited_list raw"
    using parse_allowedTools_spec [of raw]
    by (simp add: parse_disallowedTools_def parse_allowedTools_def)
  have all: "\<forall>x \<in> set (parse_labelTriggers v) \<union> set (parse_allowedTools v)
                \<union> set (parse_disallowedTools v). trimmed x"
    using parse_trimmed by blast
  have l1: "parse_labelTriggers (Some lines_abc) = [js ''a'', js ''b'', js ''c'']"
    by (simp add: parse_labelTriggers_def lines_abc_def nullish_def split_trim_def js_trim_def
          js_def is_white_space_def)
  have l2: "parse_labelTriggers (Some (js ''a,b,c'')) = [js ''a'', js ''b'', js ''c'']"
    by (simp add: parse_labelTriggers_def nullish_def split_trim_def js_trim_def
          js_def is_white_space_def)
  from parse_labelTriggers_spec [of raw] parse_unset same tools all l1 l2
  show ?thesis by (intro conjI)
qed

theorem delimited_list_parsing_witness:
  "0x0A \<notin> set (js ''a, b,,c'')
   \<and> parse_allowedTools (Some (js ''a, b,,c'')) = spec_delimited_list (js ''a, b,,c'')
   \<and> js ''b'' \<in> set (parse_allowedTools (Some (js ''a, b,,c'')))
   \<and> trimmed (js ''b'')"
proof -
  have no_lf: "0x0A \<notin> set (js ''a, b,,c'')" by (simp add: js_def)
  have mem: "js ''b'' \<in> set (parse_allowedTools (Some (js ''a, b,,c'')))"
    by (simp add: parse_allowedTools_def nullish_def split_trim_def js_trim_def js_def
          is_white_space_def)
  from delimited_list_parsing [of "js ''a, b,,c''" "Some (js ''a, b,,c'')"] no_lf mem
  show ?thesis by blast
qed

text \<open>
  Claim C2 as stated has the tool lists follow the two-mode policy too. On the source
  \<open>a\nb\nc\<close> the allowed-tools parser returns the whole source as a single element, where
  the policy (and the label-trigger parser) gives three elements, and where the same parser
  gives three elements on \<open>a,b,c\<close>.
\<close>

theorem tools_newline_counterexample:
  "parse_allowedTools (Some lines_abc) = [lines_abc]
   \<and> parse_disallowedTools (Some lines_abc) = [lines_abc]
   \<and> spec_delimited_list lines_abc = [js ''a'', js ''b'', js ''c'']
   \<and> parse_allowedTools (Some (js ''a,b,c'')) = [js ''a'', js ''b'', js ''c'']
   \<and> [lines_abc] \<noteq> [js ''a'', js ''b'', js ''c'']"
  by (simp add: parse_allowedTools_def parse_disallowedTools_def spec_delimited_list_def
        lines_abc_def nullish_def split_trim_def js_trim_def js_def is_white_space_def)

section \<open>The context normalizer\<close>


lemma truthy_toString: "truthy v \<Longrightarrow> \<exists>s. toString v = Inr s"
  by (cases v) simp_all

lemma dispatch_entityNumber_total: "\<exists>n. dispatch_entityNumber v = Inr n"
  using truthy_toString [of v] by (auto simp add: dispatch_entityNumber_def)















lemma parse_issues:
  "gh_eventName c = js ''issues'' \<Longrightarrow> gh_payload c = IssuesEvent i l \<Longrightarrow>
   parseGitHubContext env c = Inr (commonFields env c (Integer (issue_number i)) False)"
  by (simp add: parseGitHubContext_def)

lemma parse_issue_comment:
  "gh_eventName c = js ''issue_comment'' \<Longrightarrow> gh_payload c = IssueCommentEvent i cm \<Longrightarrow>
   parseGitHubContext env c =
     Inr (commonFields env c (Integer (issue_number i)) (issue_pull_request i \<noteq> None))"
  by (simp add: parseGitHubContext_def js_def)

lemma parse_pull_request:
  "gh_eventName c = js ''pull_request'' \<Longrightarrow> payload_pull_request (gh_payload c) = Some p \<Longrightarrow>
   parseGitHubContext env c = Inr (commonFields env c (Integer (pull_request_number p)) True)"
  by (simp add: parseGitHubContext_def js_def)

lemma parse_pull_request_review:
  "gh_eventName c = js ''pull_request_review'' \<Longrightarrow>
   payload_pull_request (gh_payload c) = Some p \<Longrightarrow>
   parseGitHubContext env c = Inr (commonFields env c (Integer (pull_request_number p)) True)"
  by (simp add: parseGitHubContext_def js_def)

lemma parse_pull_request_review_comment:
  "gh_eventName c = js ''pull_request_review_comment'' \<Longrightarrow>
   payload_pull_request (gh_payload c) = Some p \<Longrightarrow>
   parseGitHubContext env c = Inr (commonFields env c (Integer (pull_request_number p)) True)"
  by (simp add: parseGitHubContext_def js_def)

lemma parse_repository_dispatch:
  "gh_eventName c = js ''repository_dispatch'' \<Longrightarrow>
   gh_payload c = RepositoryDispatchEvent cp \<Longrightarrow>
   dispatch_entityNumber (optional_chain cp client_pr_number) = Inr n \<Longrightarrow>
   parseGitHubContext env c =
     Inr (commonFields env c n
            (optional_chain cp client_is_pr = JBool True
             \<or> truthy (optional_chain cp client_pr_number)))"
  by (simp add: parseGitHubContext_def js_def)

lemma parse_workflow_dispatch:
  "gh_eventName c = js ''workflow_dispatch'' \<Longrightarrow>
   gh_payload c = WorkflowDispatchEvent i \<Longrightarrow>
   dispatch_entityNumber (optional_chain i inputs_pr_number) = Inr n \<Longrightarrow>
   parseGitHubContext env c =
     Inr (commonFields env c n
            (optional_chain i inputs_is_pr = JString (js ''true'')
             \<or> truthy (optional_chain i inputs_pr_number)))"
  by (simp add: parseGitHubContext_def js_def)


lemma commonFields_sel:
  "entityNumber (commonFields env c n b) = n" "isPR (commonFields env c n b) = b"
  "eventName (commonFields env c n b) = gh_eventName c"
  "payload (commonFields env c n b) = gh_payload c"
  by (simp_all add: commonFields_def)


lemma parse_supported:
  assumes "gh_eventName c = event_name (gh_payload c)"
  shows "\<exists>n b. parseGitHubContext env c = Inr (commonFields env c n b)
     \<and> (\<forall>i. payload_issue (gh_payload c) = Some i \<longrightarrow> n = Integer (issue_number i))
     \<and> (\<forall>p. payload_pull_request (gh_payload c) = Some p \<longrightarrow> n = Integer (pull_request_number p))
     \<and> (\<forall>v. dispatch_pr_number (gh_payload c) = Some v \<longrightarrow> dispatch_entityNumber v = Inr n)
     \<and> b = (case gh_payload c of
          IssuesEvent i l \<Rightarrow> False
        | IssueCommentEvent i cm \<Rightarrow> issue_pull_request i \<noteq> None
        | PullRequestEvent p \<Rightarrow> True
        | PullRequestReviewEvent p r \<Rightarrow> True
        | PullRequestReviewCommentEvent p cm \<Rightarrow> True
        | WorkflowDispatchEvent i \<Rightarrow>
            optional_chain i inputs_is_pr = JString (js ''true'')
            \<or> truthy (optional_chain i inputs_pr_number)
        | RepositoryDispatchEvent cp \<Rightarrow>
            optional_chain cp client_is_pr = JBool True
            \<or> truthy (optional_chain cp client_pr_number))"
proof (cases "gh_payload c")
  case (IssuesEvent i l)
  then show ?thesis using assms parse_issues [of c i l env] by auto
next
  case (IssueCommentEvent i cm)
  then show ?thesis using assms parse_issue_comment [of c i cm env] by auto
next
  case (PullRequestEvent p)
  then show ?thesis using assms parse_pull_request [of c p env] by auto
next
  case (PullRequestReviewEvent p r)
  then show ?thesis using assms parse_pull_request_review [of c p env] by auto
next
  case (PullRequestReviewCommentEvent p cm)
  then show ?thesis using assms parse_pull_request_review_comment [of c p env] by auto
next
  case (WorkflowDispatchEvent i)
  obtain n where "dispatch_entityNumber (optional_chain i inputs_pr_number) = Inr n"
    using dispatch_entityNumber_total by blast
  then show ?thesis
    using WorkflowDispatchEvent assms parse_workflow_dispatch [of c i n env] by auto
next
  case (RepositoryDispatchEvent cp)
  obtain n where "dispatch_entityNumber (optional_chain cp client_pr_number) = Inr n"
    using dispatch_entityNumber_total by blast
  then show ?thesis
    using RepositoryDispatchEvent assms parse_repository_dispatch [of c cp n env] by auto
qed




text \<open>
  Claim C9. Normalization sets the isPR flag per event kind: false for issues; for
  issue_comment, true iff the issue carries a pull-request back-reference; true for
  pull_request, pull_request_review and pull_request_review_comment; for
  repository_dispatch, true iff \<open>client_payload.is_pr\<close> is the boolean true or a (truthy)
  \<open>pr_number\<close> is present; for workflow_dispatch, true iff \<open>inputs.is_pr\<close> is the string
  \<open>true\<close> or a (truthy) \<open>pr_number\<close> is present.
\<close>

theorem normalization_isPR:
  assumes "gh_eventName c = event_name (gh_payload c)"
  shows "\<exists>ctx. parseGitHubContext env c = Inr ctx
     \<and> isPR ctx = (case gh_payload c of
          IssuesEvent i l \<Rightarrow> False
        | IssueCommentEvent i cm \<Rightarrow> issue_pull_request i \<noteq> None
        | PullRequestEvent p \<Rightarrow> True
        | PullRequestReviewEvent p r \<Rightarrow> True
        | PullRequestReviewCommentEvent p cm \<Rightarrow> True
        | WorkflowDispatchEvent i \<Rightarrow>
            optional_chain i inputs_is_pr = JString (js ''true'')
            \<or> truthy (optional_chain i inputs_pr_number)
        | RepositoryDispatchEvent cp \<Rightarrow>
            optional_chain cp client_is_pr = JBool True
            \<or> truthy (optional_chain cp client_pr_number))"
proof -
  from parse_supported [OF assms, of env] obtain n b where
    "parseGitHubContext env c = Inr (commonFields env c n b)"
    and "b = (case gh_payload c of
          IssuesEvent i l \<Rightarrow> False
        | IssueCommentEvent i cm \<Rightarrow> issue_pull_request i \<noteq> None
        | PullRequestEvent p \<Rightarrow> True
        | PullRequestReviewEvent p r \<Rightarrow> True
        | PullRequestReviewCommentEvent p cm \<Rightarrow> True
        | WorkflowDispatchEvent i \<Rightarrow>
            optional_chain i inputs_is_pr = JString (js ''true'')
            \<or> truthy (optional_chain i inputs_pr_number)
        | RepositoryDispatchEvent cp \<Rightarrow>
            optional_chain cp client_is_pr = JBool True
            \<or> truthy (optional_chain cp client_pr_number))"
    by blast
  then show ?thesis by (intro exI [of _ "commonFields env c n b"]) (simp add: commonFields_sel)
qed

theorem normalization_isPR_witness:
  "gh_eventName pr_comment_event = event_name (gh_payload pr_comment_event)
   \<and> (\<exists>ctx. parseGitHubContext empty_env pr_comment_event = Inr ctx \<and> isPR ctx = True)"
proof -
  have wf: "gh_eventName pr_comment_event = event_name (gh_payload pr_comment_event)"
    by (simp add: pr_comment_event_def raw_event_def)
  from normalization_isPR [OF wf, of empty_env] wf show ?thesis
    by (simp add: pr_comment_event_def raw_event_def example_issue_def)
qed

section \<open>The trigger evaluator, rule by rule\<close>


lemmas event_predicates =
  isIssuesEvent_def isIssueCommentEvent_def isPullRequestEvent_def isPullRequestReviewEvent_def
  isPullRequestReviewCommentEvent_def isWorkflowDispatchEvent_def isRepositoryDispatchEvent_def


lemma direct_prompt: "directPrompt (inputs ctx) \<noteq> [] \<Longrightarrow>
    checkContainsTrigger env ctx = Inr (True, Direct_prompt_provided)"
  by (simp add: checkContainsTrigger_def)

lemma check_workflow_dispatch:
  "directPrompt (inputs ctx) = [] \<Longrightarrow> eventName ctx = js ''workflow_dispatch'' \<Longrightarrow>
   checkContainsTrigger env ctx = Inr (workflow_dispatch_rule env ctx)"
  by (simp add: checkContainsTrigger_def event_predicates)

lemma check_repository_dispatch:
  "directPrompt (inputs ctx) = [] \<Longrightarrow> eventName ctx = js ''repository_dispatch'' \<Longrightarrow>
   checkContainsTrigger env ctx = Inr (repository_dispatch_rule ctx)"
  by (simp add: checkContainsTrigger_def event_predicates js_def)



lemma check_opened:
  assumes "directPrompt (inputs ctx) = []" "eventName ctx = js ''issues''"
    "eventAction ctx = Some (js ''opened'')" "payload ctx = IssuesEvent i l"
  shows "checkContainsTrigger env ctx =
     Inr (if test (trigger_node (triggerPhrase (inputs ctx))) (or_empty (issue_body i))
          then (True, Issue_body_contains (triggerPhrase (inputs ctx)))
          else if test (trigger_node (triggerPhrase (inputs ctx))) (or_empty (issue_title i))
          then (True, Issue_title_contains (triggerPhrase (inputs ctx)))
          else (False, No_trigger_was_met (triggerPhrase (inputs ctx))))"
  using assms
  by (simp add: checkContainsTrigger_def event_predicates js_def assignee_rule_def label_rule_def
        issue_opened_rule_def pull_request_rule_def review_rule_def comment_rule_def
        RegExp_trigger_pattern)




section \<open>Totality and absent fields\<close>


lemmas rule_defs =
  assignee_rule_def label_rule_def issue_opened_rule_def pull_request_rule_def review_rule_def
  comment_rule_def









section \<open>Decisions of the trigger evaluator\<close>


lemmas example_contexts =
  make_context_def default_inputs_def commonInputs_def empty_env_def nullish_def
  parse_labelTriggers_def parse_allowedTools_def parse_disallowedTools_def split_trim_def
  js_trim_def

text \<open>
  Claim C5. Whenever the direct prompt of the configuration is a non-empty string, the
  evaluator activates, whatever the event kind, the action, the payload and the rest of the
  configuration are.
\<close>

theorem direct_prompt_activates:
  "directPrompt (inputs ctx) \<noteq> [] \<Longrightarrow>
     checkContainsTrigger env ctx = Inr (True, Direct_prompt_provided)"
  by (rule direct_prompt)

theorem direct_prompt_activates_witness:
  "directPrompt (inputs direct_prompt_context) \<noteq> []
   \<and> checkContainsTrigger empty_env direct_prompt_context = Inr (True, Direct_prompt_provided)
   \<and> checkContainsTrigger empty_env (direct_prompt_context \<lparr> inputs := default_inputs \<rparr>)
       = Inr (False, No_trigger_was_met (js ''@claude''))"
proof -
  have ne: "directPrompt (inputs direct_prompt_context) \<noteq> []"
    by (simp add: direct_prompt_context_def example_contexts js_def)
  have quiet: "checkContainsTrigger empty_env (direct_prompt_context \<lparr> inputs := default_inputs \<rparr>)
       = Inr (False, No_trigger_was_met (js ''@claude''))"
    by (subst check_opened [where i = quiet_issue and l = None])
       (simp_all add: direct_prompt_context_def example_contexts quiet_issue_def
          test_trigger_node js_def starts_with_def is_white_space_def code_follower_def)
  from direct_prompt_activates [OF ne, of empty_env] ne quiet show ?thesis by simp
qed


text \<open>
  Claim C6. For every repository_dispatch event with an empty direct prompt, the evaluator
  activates iff the client payload carries a PR number, or else an issue number, or else a
  prompt string (carrying a value meaning that the value is present and truthy), checked in
  that order: when a PR number is present the PR branch decides and its log line names the
  PR number, also when an issue number is present too. When none of the three is present
  the decision is not to activate.
\<close>

theorem repository_dispatch_decision:
  assumes "eventName ctx = js ''repository_dispatch''" and "directPrompt (inputs ctx) = []"
    and "payload ctx = RepositoryDispatchEvent cp"
  shows "\<exists>d. checkContainsTrigger env ctx = Inr d
     \<and> (fst d \<longleftrightarrow> truthy (optional_chain cp client_pr_number)
                 \<or> truthy (optional_chain cp client_issue_number)
                 \<or> truthy (optional_chain cp client_prompt))
     \<and> (truthy (optional_chain cp client_pr_number) \<longrightarrow>
          snd d = Repository_dispatch_for_PR (optional_chain cp client_pr_number))
     \<and> (\<not> truthy (optional_chain cp client_pr_number)
          \<and> truthy (optional_chain cp client_issue_number) \<longrightarrow>
          snd d = Repository_dispatch_for_issue (optional_chain cp client_issue_number))
     \<and> (\<not> truthy (optional_chain cp client_pr_number)
          \<and> \<not> truthy (optional_chain cp client_issue_number)
          \<and> truthy (optional_chain cp client_prompt) \<longrightarrow>
          snd d = Repository_dispatch_with_prompt)
     \<and> (\<not> truthy (optional_chain cp client_pr_number)
          \<and> \<not> truthy (optional_chain cp client_issue_number)
          \<and> \<not> truthy (optional_chain cp client_prompt) \<longrightarrow>
          d = (False, Repository_dispatch_nothing_provided))"
  using assms
  by (simp add: check_repository_dispatch repository_dispatch_rule_def Let_def)

theorem repository_dispatch_decision_witness:
  "checkContainsTrigger empty_env
      (repository_dispatch_context (Some (client (JNumber 12) (JNumber 34) JUndefined)))
     = Inr (True, Repository_dispatch_for_PR (JNumber 12))
   \<and> checkContainsTrigger empty_env (repository_dispatch_context None)
     = Inr (False, Repository_dispatch_nothing_provided)"
proof -
  let ?both = "repository_dispatch_context (Some (client (JNumber 12) (JNumber 34) JUndefined))"
  let ?none = "repository_dispatch_context None"
  have b: "eventName ?both = js ''repository_dispatch''" "directPrompt (inputs ?both) = []"
    "payload ?both = RepositoryDispatchEvent (Some (client (JNumber 12) (JNumber 34) JUndefined))"
    by (simp_all add: repository_dispatch_context_def example_contexts)
  have n: "eventName ?none = js ''repository_dispatch''" "directPrompt (inputs ?none) = []"
    "payload ?none = RepositoryDispatchEvent None"
    by (simp_all add: repository_dispatch_context_def example_contexts)
  from repository_dispatch_decision [OF b, of empty_env]
  have "checkContainsTrigger empty_env ?both = Inr (True, Repository_dispatch_for_PR (JNumber 12))"
    by (auto simp add: optional_chain_def client_def)
  moreover from repository_dispatch_decision [OF n, of empty_env]
  have "checkContainsTrigger empty_env ?none = Inr (False, Repository_dispatch_nothing_provided)"
    by (auto simp add: optional_chain_def)
  ultimately show ?thesis ..
qed

lemma chain_truthy:
  "truthy (js_or a (js_or (JString (getInput x)) (env_value y))) = chain_present a x y"
  by (cases y) (auto simp add: js_or_def chain_present_def env_value_def)

text \<open>
  Claim C7. For every workflow_dispatch event with an empty direct prompt, the evaluator
  activates iff a PR number is present in the dispatch inputs or further down the fallback
  chain (the action input \<open>pr_number\<close>, then the environment variable \<open>PR_NUMBER\<close>), or
  else a prompt is present along the same chain (\<open>inputs.prompt\<close>, the action input
  \<open>prompt\<close>, the environment variable \<open>PROMPT\<close>). When neither is present anywhere the
  decision is not to activate.
\<close>

theorem workflow_dispatch_decision:
  assumes "eventName ctx = js ''workflow_dispatch''" and "directPrompt (inputs ctx) = []"
    and "payload ctx = WorkflowDispatchEvent i"
  shows "\<exists>d. checkContainsTrigger env ctx = Inr d
     \<and> (fst d \<longleftrightarrow>
           chain_present (optional_chain i inputs_pr_number) (INPUT_PR_NUMBER env) (PR_NUMBER env)
           \<or> chain_present (optional_chain i inputs_prompt) (INPUT_PROMPT env) (PROMPT env))
     \<and> (chain_present (optional_chain i inputs_pr_number) (INPUT_PR_NUMBER env) (PR_NUMBER env)
          \<longrightarrow> (\<exists>v. snd d = Workflow_dispatch_for_PR v \<and> truthy v))
     \<and> (\<not> chain_present (optional_chain i inputs_pr_number) (INPUT_PR_NUMBER env)
              (PR_NUMBER env)
          \<and> chain_present (optional_chain i inputs_prompt) (INPUT_PROMPT env) (PROMPT env)
          \<longrightarrow> snd d = Workflow_dispatch_with_prompt)
     \<and> (\<not> chain_present (optional_chain i inputs_pr_number) (INPUT_PR_NUMBER env)
              (PR_NUMBER env)
          \<and> \<not> chain_present (optional_chain i inputs_prompt) (INPUT_PROMPT env) (PROMPT env)
          \<longrightarrow> d = (False, Workflow_dispatch_nothing_provided))"
  using assms
  by (simp add: check_workflow_dispatch workflow_dispatch_rule_def Let_def chain_truthy)

theorem workflow_dispatch_decision_witness:
  "checkContainsTrigger empty_env (workflow_dispatch_context None)
     = Inr (False, Workflow_dispatch_nothing_provided)
   \<and> fst (projr (checkContainsTrigger (empty_env \<lparr> PR_NUMBER := Some (js ''7'') \<rparr>)
                   (workflow_dispatch_context None)))"
proof -
  let ?c = "workflow_dispatch_context None"
  let ?env = "empty_env \<lparr> PR_NUMBER := Some (js ''7'') \<rparr>"
  have c: "eventName ?c = js ''workflow_dispatch''" "directPrompt (inputs ?c) = []"
    "payload ?c = WorkflowDispatchEvent None"
    by (simp_all add: workflow_dispatch_context_def example_contexts)
  have absent: "\<not> chain_present (optional_chain None inputs_pr_number)
                    (INPUT_PR_NUMBER empty_env) (PR_NUMBER empty_env)"
    "\<not> chain_present (optional_chain None inputs_prompt)
                    (INPUT_PROMPT empty_env) (PROMPT empty_env)"
    by (simp_all add: chain_present_def optional_chain_def empty_env_def getInput_def js_trim_def)
  have present: "chain_present (optional_chain None inputs_pr_number)
                    (INPUT_PR_NUMBER ?env) (PR_NUMBER ?env)"
    by (simp add: chain_present_def js_def)
  from workflow_dispatch_decision [OF c, of empty_env] absent
  have "checkContainsTrigger empty_env ?c = Inr (False, Workflow_dispatch_nothing_provided)"
    by auto
  moreover from workflow_dispatch_decision [OF c, of ?env] present
  have "fst (projr (checkContainsTrigger ?env ?c))"
    by auto
  ultimately show ?thesis ..
qed



text \<open>
  Claim C10. The decision does not depend on the metadata of the context: two contexts that
  agree on the event name, the action, the payload and the configuration inputs get the same
  decision (under the same environment), however they differ in run id, repository, actor,
  entity number and pull-request flag.
\<close>

theorem decision_ignores_metadata:
  assumes "eventName c1 = eventName c2" and "eventAction c1 = eventAction c2"
    and "payload c1 = payload c2" and "inputs c1 = inputs c2"
  shows "checkContainsTrigger env c1 = checkContainsTrigger env c2"
  unfolding checkContainsTrigger_def rule_defs event_predicates workflow_dispatch_rule_def
    repository_dispatch_rule_def assms
  by (rule refl)

theorem decision_ignores_metadata_witness:
  "checkContainsTrigger empty_env
      (opened_context (Text (js ''Please see @claude for details.'')) (Text (js ''Fix bug''))
         \<lparr> runId := None, repository := \<lparr> owner = js ''a'', repo = js ''b'', full_name = js ''a/b'' \<rparr>,
           actor := js ''someone-else'', entityNumber := NaN, isPR := True \<rparr>)
   = checkContainsTrigger empty_env
      (opened_context (Text (js ''Please see @claude for details.'')) (Text (js ''Fix bug'')))
   \<and> checkContainsTrigger empty_env
      (opened_context (Text (js ''Please see @claude for details.'')) (Text (js ''Fix bug'')))
     = Inr (True, Issue_body_contains (js ''@claude''))"
proof
  show "checkContainsTrigger empty_env
      (opened_context (Text (js ''Please see @claude for details.'')) (Text (js ''Fix bug''))
         \<lparr> runId := None, repository := \<lparr> owner = js ''a'', repo = js ''b'', full_name = js ''a/b'' \<rparr>,
           actor := js ''someone-else'', entityNumber := NaN, isPR := True \<rparr>)
   = checkContainsTrigger empty_env
      (opened_context (Text (js ''Please see @claude for details.'')) (Text (js ''Fix bug'')))"
    by (rule decision_ignores_metadata) simp_all
  show "checkContainsTrigger empty_env
      (opened_context (Text (js ''Please see @claude for details.'')) (Text (js ''Fix bug'')))
     = Inr (True, Issue_body_contains (js ''@claude''))"
    by (subst check_opened
          [where i = "quiet_issue \<lparr> issue_body := Text (js ''Please see @claude for details.''),
                        issue_title := Text (js ''Fix bug'') \<rparr>" and l = None])
       (simp_all add: opened_context_def example_contexts test_trigger_node js_def
          starts_with_def is_white_space_def code_follower_def)
qed

section \<open>Absent fields\<close>






end
